theory Spec2Isabelle
  imports Complex_Main "HOL-Library.Word" "HOL-Library.Monad_Syntax"
begin

section \<open>Pixel buffers\<close>

text \<open>
  \<^verbatim>\<open>np.array(image)\<close> of an RGBA image is an array of shape (H, W, 4) and dtype
  uint8. A pixel is the four values along the last axis; the array is a list of rows.
\<close>

type_synonym uint8 = "8 word"
type_synonym pixel = "uint8 \<times> uint8 \<times> uint8 \<times> uint8"
type_synonym ndarray = "pixel list list"

fun chan0 :: "pixel \<Rightarrow> uint8" where "chan0 (r, g, b, a) = r"
fun chan1 :: "pixel \<Rightarrow> uint8" where "chan1 (r, g, b, a) = g"
fun chan2 :: "pixel \<Rightarrow> uint8" where "chan2 (r, g, b, a) = b"
fun chan3 :: "pixel \<Rightarrow> uint8" where "chan3 (r, g, b, a) = a"

text \<open>
  \<^verbatim>\<open>red, green, blue, alpha = data[:,:,0], data[:,:,1], data[:,:,2], data[:,:,3]\<close>:
  basic slices are views, they alias \<^verbatim>\<open>data\<close>. A view is therefore a function of the
  current contents of the array, read again at every use.
\<close>

definition red :: "ndarray \<Rightarrow> uint8 list list" where
  "red data = map (map chan0) data"

definition green :: "ndarray \<Rightarrow> uint8 list list" where
  "green data = map (map chan1) data"

definition blue :: "ndarray \<Rightarrow> uint8 list list" where
  "blue data = map (map chan2) data"

definition alpha :: "ndarray \<Rightarrow> uint8 list list" where
  "alpha data = map (map chan3) data"

section \<open>The array operations the refiner uses\<close>

text \<open>
  A failing array operation raises; the model returns \<open>None\<close>. Two arrays combine
  elementwise when their shapes agree (broadcasting of unequal shapes is not modelled:
  it counts as a failure), and a boolean mask indexes an array only when its shape is
  the array's (IndexError otherwise).
\<close>

definition shape :: "'a list list \<Rightarrow> nat list" where
  "shape xs = map length xs"

definition elementwise ::
  "('a \<Rightarrow> 'b \<Rightarrow> 'c) \<Rightarrow> 'a list list \<Rightarrow> 'b list list \<Rightarrow> 'c list list option" where
  "elementwise f xs ys =
     (if shape xs = shape ys then Some (map2 (map2 f) xs ys) else None)"

text \<open>\<^verbatim>\<open>a > c\<close> and \<^verbatim>\<open>a < c\<close> of an array and a scalar.\<close>

definition gt :: "('a::ord) list list \<Rightarrow> 'a \<Rightarrow> bool list list" where
  "gt xs c = map (map (\<lambda>x. c < x)) xs"

definition lt :: "('a::ord) list list \<Rightarrow> 'a \<Rightarrow> bool list list" where
  "lt xs c = map (map (\<lambda>x. x < c)) xs"

text \<open>\<^verbatim>\<open>m1 & m2\<close> of two boolean arrays.\<close>

definition logical_and :: "bool list list \<Rightarrow> bool list list \<Rightarrow> bool list list option" where
  "logical_and = elementwise (\<and>)"

text \<open>\<^verbatim>\<open>a + b\<close> of two uint8 arrays: the result is uint8, the sum wraps modulo 256.\<close>

definition add_uint8 :: "uint8 list list \<Rightarrow> uint8 list list \<Rightarrow> uint8 list list option" where
  "add_uint8 = elementwise (+)"

text \<open>
  \<^verbatim>\<open>a / 3\<close> of a uint8 array: true division, the result is float64. The quotient of an
  integer below 256 is modelled by the exact quotient: float64 division is correctly
  rounded and monotone, and 200 is a float64, so the comparison with 200 that follows
  has the same outcome.
\<close>

definition true_divide :: "uint8 list list \<Rightarrow> real \<Rightarrow> real list list" where
  "true_divide xs c = map (map (\<lambda>x. real (unat x) / c)) xs"

text \<open>\<^verbatim>\<open>data[mask] = [r, g, b, a]\<close>: every selected pixel is replaced.\<close>

definition setitem_mask :: "ndarray \<Rightarrow> bool list list \<Rightarrow> pixel \<Rightarrow> ndarray option" where
  "setitem_mask data msk v = elementwise (\<lambda>m p. if m then v else p) msk data"

text \<open>\<^verbatim>\<open>data[mask, 3] = v\<close>: channel 3 of every selected pixel is replaced.\<close>

fun set_chan3 :: "uint8 \<Rightarrow> pixel \<Rightarrow> pixel" where
  "set_chan3 v (r, g, b, a) = (r, g, b, v)"

definition setitem_mask_3 :: "ndarray \<Rightarrow> bool list list \<Rightarrow> uint8 \<Rightarrow> ndarray option" where
  "setitem_mask_3 data msk v = elementwise (\<lambda>m p. if m then set_chan3 v p else p) msk data"

section \<open>The transparency refiner\<close>

text \<open>
  Lines 51 to 67 of \<^verbatim>\<open>ensure_transparency\<close>, statement by statement. \<open>data0\<close> to
  \<open>data3\<close> are the successive contents of the one array \<^verbatim>\<open>data\<close>; each mask is read
  from the views at the moment its statement runs.
\<close>

definition refine_array :: "ndarray \<Rightarrow> ndarray option" where
  "refine_array data0 = do {
     let threshold = 240;
     rg \<leftarrow> logical_and (gt (red data0) threshold) (gt (green data0) threshold);
     white_pixels \<leftarrow> logical_and rg (gt (blue data0) threshold);
     data1 \<leftarrow> setitem_mask data0 white_pixels (255, 255, 255, 0);
     let semi_transparent = lt (alpha data1) 50;
     data2 \<leftarrow> setitem_mask_3 data1 semi_transparent 0;
     let edge_threshold = 200;
     edge_pixels \<leftarrow> logical_and (gt (alpha data2) 0) (lt (alpha data2) edge_threshold);
     rg_sum \<leftarrow> add_uint8 (red data2) (green data2);
     rgb_sum \<leftarrow> add_uint8 rg_sum (blue data2);
     edge_white \<leftarrow> logical_and edge_pixels (gt (true_divide rgb_sum 3) 200);
     data3 \<leftarrow> setitem_mask_3 data2 edge_white 0;
     Some data3
   }"

text \<open>
  An image is its mode and its pixels. Only RGBA pixels are looked at here; an image of
  another mode carries contents of some type \<open>'x\<close> and is converted first, by the
  imaging library's \<^verbatim>\<open>convert('RGBA')\<close>, a parameter of the model.
\<close>

datatype 'x image = RGBA ndarray | Other_mode 'x

definition ensure_transparency :: "('x \<Rightarrow> ndarray) \<Rightarrow> 'x image \<Rightarrow> 'x image option" where
  "ensure_transparency convert img = do {
     let data = (case img of RGBA d \<Rightarrow> d | Other_mode x \<Rightarrow> convert x);
     data3 \<leftarrow> refine_array data;
     Some (RGBA data3)
   }"


subsection \<open>The three passes, one by one\<close>

text \<open>
  The three groups of statements of \<^verbatim>\<open>ensure_transparency\<close>, each as a function of
  the contents of \<^verbatim>\<open>data\<close> when the group starts: lines 55 to 57, lines 60 and 61,
  lines 64 to 67.
\<close>

definition near_white_suppression :: "ndarray \<Rightarrow> ndarray option" where
  "near_white_suppression data = do {
     let threshold = 240;
     rg \<leftarrow> logical_and (gt (red data) threshold) (gt (green data) threshold);
     white_pixels \<leftarrow> logical_and rg (gt (blue data) threshold);
     setitem_mask data white_pixels (255, 255, 255, 0)
   }"

definition low_alpha_snapping :: "ndarray \<Rightarrow> ndarray option" where
  "low_alpha_snapping data = do {
     let semi_transparent = lt (alpha data) 50;
     setitem_mask_3 data semi_transparent 0
   }"

text \<open>The mask \<^verbatim>\<open>edge_pixels = (alpha > 0) & (alpha < edge_threshold)\<close> of line 65.\<close>

definition edge_pixels :: "ndarray \<Rightarrow> bool list list option" where
  "edge_pixels data = do {
     let edge_threshold = 200;
     logical_and (gt (alpha data) 0) (lt (alpha data) edge_threshold)
   }"

definition edge_cleanup :: "ndarray \<Rightarrow> ndarray option" where
  "edge_cleanup data = do {
     edge_px \<leftarrow> edge_pixels data;
     rg_sum \<leftarrow> add_uint8 (red data) (green data);
     rgb_sum \<leftarrow> add_uint8 rg_sum (blue data);
     edge_white \<leftarrow> logical_and edge_px (gt (true_divide rgb_sum 3) 200);
     setitem_mask_3 data edge_white 0
   }"

subsection \<open>What the passes do to one pixel\<close>

text \<open>
  Every mask is computed pixel by pixel and every assignment changes the selected pixels
  only, so each pass maps a function over the pixels. These are the three functions and
  their composition; the lemmas on the passes prove that the passes are these maps.
\<close>

definition is_white :: "pixel \<Rightarrow> bool" where
  "is_white p \<longleftrightarrow> 240 < chan0 p \<and> 240 < chan1 p \<and> 240 < chan2 p"

definition white_pixel :: "pixel \<Rightarrow> pixel" where
  "white_pixel p = (if is_white p then (255, 255, 255, 0) else p)"

definition snap_pixel :: "pixel \<Rightarrow> pixel" where
  "snap_pixel p = (if chan3 p < 50 then set_chan3 0 p else p)"

definition is_edge :: "pixel \<Rightarrow> bool" where
  "is_edge p \<longleftrightarrow> 0 < chan3 p \<and> chan3 p < 200"

text \<open>The mean as line 66 computes it: the sum is a uint8 and has wrapped.\<close>

definition wrapped_mean :: "pixel \<Rightarrow> real" where
  "wrapped_mean p = real (unat (chan0 p + chan1 p + chan2 p)) / 3"

definition edge_pixel :: "pixel \<Rightarrow> pixel" where
  "edge_pixel p = (if is_edge p \<and> 200 < wrapped_mean p then set_chan3 0 p else p)"

definition refine_pixel :: "pixel \<Rightarrow> pixel" where
  "refine_pixel p = edge_pixel (snap_pixel (white_pixel p))"

text \<open>
  The mean the specification of pass 3 asks for: the arithmetic mean of the three
  channel values, summed in a type that does not overflow.
\<close>

definition mean_rgb :: "pixel \<Rightarrow> real" where
  "mean_rgb p = (real (unat (chan0 p)) + real (unat (chan1 p)) + real (unat (chan2 p))) / 3"


section \<open>Exceptions\<close>

text \<open>
  What a call raises: an exception of class \<^verbatim>\<open>Exception\<close> with its message, or
  \<^verbatim>\<open>KeyboardInterrupt\<close>, which is not of that class. A call that can raise returns
  \<open>Inl\<close> of one of them.
\<close>

datatype exn = Exception string | KeyboardInterrupt

section \<open>The interactive options\<close>

text \<open>
  A string is the list of its code points, each below 256. \<^verbatim>\<open>str.isspace\<close> holds there
  of the code points 9 to 13, 28 to 32, 133 and 160; \<^verbatim>\<open>str.lower\<close> moves A to Z and
  the capital letters 192 to 222 (215, the multiplication sign, apart) up by 32.
\<close>

definition isspace :: "char \<Rightarrow> bool" where
  "isspace c =
     (let n = (of_char c :: nat)
      in (9 \<le> n \<and> n \<le> 13) \<or> (28 \<le> n \<and> n \<le> 32) \<or> n = 133 \<or> n = 160)"

definition lower_char :: "char \<Rightarrow> char" where
  "lower_char c =
     (let n = (of_char c :: nat)
      in if (65 \<le> n \<and> n \<le> 90) \<or> (192 \<le> n \<and> n \<le> 222 \<and> n \<noteq> 215)
         then char_of (n + 32) else c)"

text \<open>\<^verbatim>\<open>s.strip()\<close>: leading and trailing whitespace removed.\<close>

definition strip :: "string \<Rightarrow> string" where
  "strip s = rev (dropWhile isspace (rev (dropWhile isspace s)))"

definition lower :: "string \<Rightarrow> string" where
  "lower s = map lower_char s"

text \<open>
  \<^verbatim>\<open>input(prompt)\<close> takes the next line of the standard input, here the list of the
  lines still to be read, and raises EOFError when there is none.
\<close>

definition input :: "string list \<Rightarrow> exn + (string \<times> string list)" where
  "input stdin =
     (case stdin of
        [] \<Rightarrow> Inl (Exception ''EOFError'')
      | line # rest \<Rightarrow> Inr (line, rest))"

definition select_options :: "string list \<Rightarrow> exn + ((bool \<times> bool) \<times> string list)" where
  "select_options stdin =
     (case input stdin of
        Inl e \<Rightarrow> Inl e
      | Inr (answer1, stdin1) \<Rightarrow>
          let alpha_matting_input = lower (strip answer1);
              alpha_matting = (alpha_matting_input \<noteq> ''n'')
          in (case input stdin1 of
                Inl e \<Rightarrow> Inl e
              | Inr (answer2, stdin2) \<Rightarrow>
                  let mask_only_input = lower (strip answer2);
                      only_mask = (mask_only_input = ''y'')
                  in Inr ((alpha_matting, only_mask), stdin2)))"

section \<open>The batch driver\<close>














section \<open>The passes are pixel-wise maps\<close>

lemma map2_same: "map2 f (map g xs) (map h xs) = map (\<lambda>x. f (g x) (h x)) xs"
  by (induction xs) simp_all

lemma elementwise_same:
  "elementwise f (map (map g) d) (map (map h) d) = Some (map (map (\<lambda>p. f (g p) (h p))) d)"
  by (simp add: elementwise_def shape_def map2_same)

lemma elementwise_same_id:
  "elementwise f (map (map g) d) d = Some (map (map (\<lambda>p. f (g p) p)) d)"
  using elementwise_same [of f g d id] by simp

lemma near_white_suppression_map:
  "near_white_suppression d = Some (map (map white_pixel) d)"
  by (simp add: near_white_suppression_def logical_and_def gt_def red_def green_def blue_def
      setitem_mask_def elementwise_same elementwise_same_id white_pixel_def is_white_def)

lemma low_alpha_snapping_map: "low_alpha_snapping d = Some (map (map snap_pixel) d)"
  by (simp add: low_alpha_snapping_def lt_def alpha_def setitem_mask_3_def
      elementwise_same_id snap_pixel_def)

lemma edge_pixels_map: "edge_pixels d = Some (map (map is_edge) d)"
  by (simp add: edge_pixels_def logical_and_def gt_def lt_def alpha_def elementwise_same
      is_edge_def)

lemma edge_cleanup_map: "edge_cleanup d = Some (map (map edge_pixel) d)"
  by (simp add: edge_cleanup_def edge_pixels_map add_uint8_def red_def green_def blue_def
      elementwise_same true_divide_def gt_def logical_and_def setitem_mask_3_def
      elementwise_same_id edge_pixel_def wrapped_mean_def)

lemma refine_array_passes:
  "refine_array d =
     near_white_suppression d \<bind> (\<lambda>data1. low_alpha_snapping data1 \<bind> (\<lambda>data2. edge_cleanup data2))"
  by (simp add: refine_array_def near_white_suppression_def low_alpha_snapping_def
      edge_cleanup_def edge_pixels_def Let_def)

lemma refine_array_map: "refine_array d = Some (map (map refine_pixel) d)"
  by (simp add: refine_array_passes near_white_suppression_map low_alpha_snapping_map
      edge_cleanup_map refine_pixel_def comp_def)

lemma ensure_transparency_RGBA:
  "ensure_transparency convert (RGBA d) = Some (RGBA (map (map refine_pixel) d))"
  by (simp add: ensure_transparency_def refine_array_map)

lemma ensure_transparency_Other:
  "ensure_transparency convert (Other_mode x) = Some (RGBA (map (map refine_pixel) (convert x)))"
  by (simp add: ensure_transparency_def refine_array_map)

lemma nth_map_map: "i < length d \<Longrightarrow> j < length (d ! i) \<Longrightarrow> map (map f) d ! i ! j = f (d ! i ! j)"
  by simp

section \<open>The pixel functions\<close>

lemma wrapped_mean_le: "wrapped_mean p \<le> 85"
proof -
  have "unat (chan0 p + chan1 p + chan2 p) < 2 ^ 8"
    using unsigned_less [of "chan0 p + chan1 p + chan2 p"] by simp
  then have "unat (chan0 p + chan1 p + chan2 p) \<le> 255" by simp
  then have "real (unat (chan0 p + chan1 p + chan2 p)) \<le> real 255" by (rule of_nat_mono)
  then show ?thesis by (simp add: wrapped_mean_def)
qed

lemma edge_pixel_id: "edge_pixel p = p"
  using wrapped_mean_le [of p] by (simp add: edge_pixel_def)

lemma edge_cleanup_id: "edge_cleanup d = Some d"
proof -
  have "edge_pixel = id" by (rule ext) (simp add: edge_pixel_id)
  then show ?thesis by (simp add: edge_cleanup_map)
qed

lemma refine_pixel_cases:
  "refine_pixel (r, g, b, a) =
     (if 240 < r \<and> 240 < g \<and> 240 < b then (255, 255, 255, 0)
      else if a < 50 then (r, g, b, 0) else (r, g, b, a))"
  by (simp add: refine_pixel_def edge_pixel_id snap_pixel_def white_pixel_def is_white_def)

lemma refine_pixel_idem: "refine_pixel (refine_pixel p) = refine_pixel p"
  by (cases p) (simp add: refine_pixel_cases)

lemma refine_pixel_alpha: "chan3 (refine_pixel p) = 0 \<or> 50 \<le> chan3 (refine_pixel p)"
  by (cases p) (simp add: refine_pixel_cases not_less)

lemma refine_pixel_frame:
  "refine_pixel p = (255, 255, 255, 0) \<or> refine_pixel p = p \<or> refine_pixel p = set_chan3 0 p"
  by (cases p) (simp add: refine_pixel_cases)


lemma refine_pixel_alpha_le: "chan3 (refine_pixel p) \<le> chan3 p"
  by (cases p) (simp add: refine_pixel_cases)

lemma refine_pixel_rgb:
  "(chan0 (refine_pixel p), chan1 (refine_pixel p), chan2 (refine_pixel p)) =
     (chan0 p, chan1 p, chan2 p) \<or>
   (chan0 (refine_pixel p), chan1 (refine_pixel p), chan2 (refine_pixel p)) = (255, 255, 255)"
  by (cases p) (simp add: refine_pixel_cases)

lemma refine_pixel_white: "is_white p \<Longrightarrow> refine_pixel p = (255, 255, 255, 0)"
  by (cases p) (simp add: refine_pixel_cases is_white_def)

lemma shape_map_map: "shape (map (map f) d) = shape d"
  by (simp add: shape_def)

section \<open>The refiner: properties\<close>

text \<open>
  C1. Pass 3 is meant to set Alpha to 0 at every pixel with Alpha strictly between 0 and
  200 whose mean of Red, Green and Blue, summed without overflow, exceeds 200. The pixel
  (210, 210, 200, 120) is such a pixel (its mean is 620 / 3), and the code leaves it as
  it is: the sum 620 is taken in uint8 and wraps to 108, and 108 / 3 is not above 200.
  Pass 3 in fact returns every buffer unchanged.
\<close>

theorem edge_cleanup_keeps_bright_edge_pixel:
  "0 < chan3 (210, 210, 200, 120) \<and> chan3 (210, 210, 200, 120) < 200 \<and>
   200 < mean_rgb (210, 210, 200, 120) \<and>
   edge_cleanup [[(210, 210, 200, 120)]] = Some [[(210, 210, 200, 120)]] \<and>
   ensure_transparency convert (RGBA [[(210, 210, 200, 120)]]) =
     Some (RGBA [[(210, 210, 200, 120)]]) \<and>
   edge_cleanup data = Some data"
proof -
  have "200 < mean_rgb (210, 210, 200, 120)" by (simp add: mean_rgb_def)
  moreover have "edge_cleanup [[(210, 210, 200, 120)]] = Some [[(210, 210, 200, 120)]]"
    by (rule edge_cleanup_id)
  moreover have "refine_pixel (210, 210, 200, 120) = (210, 210, 200, 120)"
    by (simp add: refine_pixel_cases)
  ultimately show ?thesis by (simp add: ensure_transparency_RGBA edge_cleanup_id)
qed

text \<open>
  C2. Pass 1 turns every pixel whose Red, Green and Blue are all strictly above 240 into
  (255, 255, 255, 0), and it stays so in the refined image; pass 1 leaves every other
  pixel as it is. The boundary is strict: (241, 241, 241, 255) becomes (255, 255, 255, 0)
  and (240, 240, 240, 255) is not touched by pass 1.
\<close>

theorem near_white_suppression_strict_boundary:
  assumes "i < length data" and "j < length (data ! i)"
  shows "(\<exists>data1 out.
            near_white_suppression data = Some data1 \<and>
            ensure_transparency convert (RGBA data) = Some (RGBA out) \<and>
            (240 < chan0 (data ! i ! j) \<and> 240 < chan1 (data ! i ! j) \<and> 240 < chan2 (data ! i ! j)
               \<longrightarrow> data1 ! i ! j = (255, 255, 255, 0) \<and> out ! i ! j = (255, 255, 255, 0)) \<and>
            (\<not> (240 < chan0 (data ! i ! j) \<and> 240 < chan1 (data ! i ! j) \<and> 240 < chan2 (data ! i ! j))
               \<longrightarrow> data1 ! i ! j = data ! i ! j)) \<and>
         near_white_suppression [[(241, 241, 241, 255)]] = Some [[(255, 255, 255, 0)]] \<and>
         near_white_suppression [[(240, 240, 240, 255)]] = Some [[(240, 240, 240, 255)]]"
proof -
  let ?p = "data ! i ! j"
  have p1: "map (map white_pixel) data ! i ! j = white_pixel ?p"
    using assms by (rule nth_map_map)
  have p3: "map (map refine_pixel) data ! i ! j = refine_pixel ?p"
    using assms by (rule nth_map_map)
  have w: "is_white ?p \<Longrightarrow> white_pixel ?p = (255, 255, 255, 0)"
    by (simp add: white_pixel_def)
  have n: "\<not> is_white ?p \<Longrightarrow> white_pixel ?p = ?p"
    by (simp add: white_pixel_def)
  have general: "\<exists>data1 out.
            near_white_suppression data = Some data1 \<and>
            ensure_transparency convert (RGBA data) = Some (RGBA out) \<and>
            (240 < chan0 ?p \<and> 240 < chan1 ?p \<and> 240 < chan2 ?p
               \<longrightarrow> data1 ! i ! j = (255, 255, 255, 0) \<and> out ! i ! j = (255, 255, 255, 0)) \<and>
            (\<not> (240 < chan0 ?p \<and> 240 < chan1 ?p \<and> 240 < chan2 ?p)
               \<longrightarrow> data1 ! i ! j = ?p)"
    using p1 p3 w n refine_pixel_white [of ?p]
    by (simp add: near_white_suppression_map ensure_transparency_RGBA is_white_def)
  have b241: "near_white_suppression [[(241, 241, 241, 255)]] = Some [[(255, 255, 255, 0)]]"
    by (simp add: near_white_suppression_map white_pixel_def is_white_def)
  have b240: "near_white_suppression [[(240, 240, 240, 255)]] = Some [[(240, 240, 240, 255)]]"
    by (simp add: near_white_suppression_map white_pixel_def is_white_def)
  from general b241 b240 show ?thesis by blast
qed

theorem near_white_suppression_strict_boundary_witness:
  "(0::nat) < length ([[(241, 241, 241, 255), (240, 240, 240, 255)]] :: ndarray) \<and>
   (1::nat) < length (([[(241, 241, 241, 255), (240, 240, 240, 255)]] :: ndarray) ! 0) \<and>
   (\<exists>data1 out.
      near_white_suppression [[(241, 241, 241, 255), (240, 240, 240, 255)]] = Some data1 \<and>
      ensure_transparency (\<lambda>x :: unit. []) (RGBA [[(241, 241, 241, 255), (240, 240, 240, 255)]])
        = Some (RGBA out) \<and>
      data1 ! 0 ! 0 = (255, 255, 255, 0) \<and> out ! 0 ! 0 = (255, 255, 255, 0) \<and>
      data1 ! 0 ! 1 = (240, 240, 240, 255))"
proof -
  let ?W = "[[(241, 241, 241, 255), (240, 240, 240, 255)]] :: ndarray"
  have i: "(0::nat) < length ?W" by simp
  have j0: "(0::nat) < length (?W ! 0)" by simp
  have j1: "(1::nat) < length (?W ! 0)" by simp
  from near_white_suppression_strict_boundary [OF i j0, of "\<lambda>x :: unit. []"]
  obtain d1 out where a: "near_white_suppression ?W = Some d1"
    "ensure_transparency (\<lambda>x :: unit. []) (RGBA ?W) = Some (RGBA out)"
    "d1 ! 0 ! 0 = (255, 255, 255, 0)" "out ! 0 ! 0 = (255, 255, 255, 0)"
    by auto
  from near_white_suppression_strict_boundary [OF i j1, of "\<lambda>x :: unit. []"]
  obtain d1' where b: "near_white_suppression ?W = Some d1'" "d1' ! 0 ! 1 = (240, 240, 240, 255)"
    by auto
  from a b i j1 show ?thesis by auto
qed

text \<open>
  C3. Pass 2 sets Alpha to 0 at every pixel whose Alpha is strictly below 50 in the buffer
  it is given, which is the output of pass 1, and leaves the Red, Green and Blue of that
  pixel as they are. The statement holds of every buffer \<open>data1\<close>, the output of pass 1
  among them.
\<close>

theorem low_alpha_snapping_zeroes_alpha:
  assumes "i < length data1" and "j < length (data1 ! i)" and "chan3 (data1 ! i ! j) < 50"
  shows "\<exists>data2. low_alpha_snapping data1 = Some data2 \<and>
           chan3 (data2 ! i ! j) = 0 \<and>
           chan0 (data2 ! i ! j) = chan0 (data1 ! i ! j) \<and>
           chan1 (data2 ! i ! j) = chan1 (data1 ! i ! j) \<and>
           chan2 (data2 ! i ! j) = chan2 (data1 ! i ! j)"
proof -
  let ?p = "data1 ! i ! j"
  have "map (map snap_pixel) data1 ! i ! j = snap_pixel ?p"
    using assms(1,2) by (rule nth_map_map)
  moreover have "snap_pixel ?p = set_chan3 0 ?p"
    using assms(3) by (simp add: snap_pixel_def)
  moreover have "chan3 (set_chan3 0 ?p) = 0" "chan0 (set_chan3 0 ?p) = chan0 ?p"
    "chan1 (set_chan3 0 ?p) = chan1 ?p" "chan2 (set_chan3 0 ?p) = chan2 ?p"
    by (cases ?p; simp)+
  ultimately show ?thesis by (simp add: low_alpha_snapping_map)
qed

theorem low_alpha_snapping_zeroes_alpha_witness:
  "near_white_suppression [[(250, 250, 250, 255), (7, 8, 9, 49)]]
     = Some [[(255, 255, 255, 0), (7, 8, 9, 49)]] \<and>
   (1::nat) < length (([[(255, 255, 255, 0), (7, 8, 9, 49)]] :: ndarray) ! 0) \<and>
   chan3 (([[(255, 255, 255, 0), (7, 8, 9, 49)]] :: ndarray) ! 0 ! 1) < 50 \<and>
   (\<exists>data2. low_alpha_snapping [[(255, 255, 255, 0), (7, 8, 9, 49)]] = Some data2 \<and>
      chan3 (data2 ! 0 ! 1) = 0 \<and> chan0 (data2 ! 0 ! 1) = 7 \<and>
      chan1 (data2 ! 0 ! 1) = 8 \<and> chan2 (data2 ! 0 ! 1) = 9)"
proof -
  let ?W = "[[(255, 255, 255, 0), (7, 8, 9, 49)]] :: ndarray"
  have p1: "near_white_suppression [[(250, 250, 250, 255), (7, 8, 9, 49)]] = Some ?W"
    by (simp add: near_white_suppression_map white_pixel_def is_white_def)
  have i: "(0::nat) < length ?W" by simp
  have j: "(1::nat) < length (?W ! 0)" by simp
  have a: "chan3 (?W ! 0 ! 1) < 50" by simp
  from low_alpha_snapping_zeroes_alpha [OF i j a] p1 j a show ?thesis by simp
qed

text \<open>
  C4. The refiner is pass 1, then pass 2 on the buffer pass 1 returned, then pass 3 on the
  buffer pass 2 returned; every pass succeeds. Every pixel that pass 1 made white and
  transparent, or whose Alpha after pass 1 is below 50, has Alpha 0 after pass 2, is not
  in the mask \<^verbatim>\<open>edge_pixels\<close> of pass 3 (it fails the test Alpha > 0) and is left as
  it is by pass 3.
\<close>

theorem passes_run_in_order_on_mutated_buffer:
  "\<exists>data1 data2 data3 edge.
     near_white_suppression data = Some data1 \<and>
     low_alpha_snapping data1 = Some data2 \<and>
     edge_pixels data2 = Some edge \<and>
     edge_cleanup data2 = Some data3 \<and>
     refine_array data = Some data3 \<and>
     ensure_transparency convert (RGBA data) = Some (RGBA data3) \<and>
     (\<forall>i<length data. \<forall>j<length (data ! i).
        is_white (data ! i ! j) \<or> chan3 (data1 ! i ! j) < 50 \<longrightarrow>
          chan3 (data2 ! i ! j) = 0 \<and> \<not> edge ! i ! j \<and> data3 ! i ! j = data2 ! i ! j)"
proof -
  let ?d1 = "map (map white_pixel) data"
  let ?d2 = "map (map snap_pixel) ?d1"
  let ?d3 = "map (map edge_pixel) ?d2"
  let ?e = "map (map is_edge) ?d2"
  have r: "refine_array data = Some ?d3"
    by (simp add: refine_array_passes near_white_suppression_map low_alpha_snapping_map
        edge_cleanup_map)
  have e: "ensure_transparency convert (RGBA data) = Some (RGBA ?d3)"
    by (simp add: ensure_transparency_def r)
  have px: "chan3 (?d2 ! i ! j) = 0 \<and> \<not> ?e ! i ! j \<and> ?d3 ! i ! j = ?d2 ! i ! j"
    if i: "i < length data" and j: "j < length (data ! i)"
      and c: "is_white (data ! i ! j) \<or> chan3 (?d1 ! i ! j) < 50" for i j
  proof -
    let ?p = "data ! i ! j"
    have n1: "?d1 ! i ! j = white_pixel ?p" using i j by simp
    have n2: "?d2 ! i ! j = snap_pixel (white_pixel ?p)" using i j by simp
    have n3: "?d3 ! i ! j = edge_pixel (snap_pixel (white_pixel ?p))" using i j by simp
    have ne: "?e ! i ! j = is_edge (snap_pixel (white_pixel ?p))" using i j by simp
    have low: "chan3 (white_pixel ?p) < 50"
      using c n1 by (auto simp: white_pixel_def)
    have z: "chan3 (snap_pixel (white_pixel ?p)) = 0"
      using low by (cases "white_pixel ?p") (simp add: snap_pixel_def)
    show ?thesis
      using z by (simp only: n2 n3 ne edge_pixel_id) (simp add: is_edge_def)
  qed
  show ?thesis
    apply (rule exI [of _ ?d1], rule exI [of _ ?d2], rule exI [of _ ?d3], rule exI [of _ ?e])
    using r e px
    by (simp only: near_white_suppression_map low_alpha_snapping_map edge_pixels_map
        edge_cleanup_map) blast
qed


theorem passes_run_in_order_on_mutated_buffer_witness:
  "\<exists>data1 data2 data3 edge.
     near_white_suppression [[(250, 250, 250, 255), (7, 8, 9, 49)]] = Some data1 \<and>
     low_alpha_snapping data1 = Some data2 \<and>
     edge_pixels data2 = Some edge \<and>
     edge_cleanup data2 = Some data3 \<and>
     refine_array [[(250, 250, 250, 255), (7, 8, 9, 49)]] = Some data3 \<and>
     is_white (([[(250, 250, 250, 255), (7, 8, 9, 49)]] :: ndarray) ! 0 ! 0) \<and>
     chan3 (data1 ! 0 ! 1) < 50 \<and>
     chan3 (data2 ! 0 ! 0) = 0 \<and> \<not> edge ! 0 ! 0 \<and> data3 ! 0 ! 0 = data2 ! 0 ! 0 \<and>
     chan3 (data2 ! 0 ! 1) = 0 \<and> \<not> edge ! 0 ! 1 \<and> data3 ! 0 ! 1 = data2 ! 0 ! 1"
proof -
  let ?W = "[[(250, 250, 250, 255), (7, 8, 9, 49)]] :: ndarray"
  from passes_run_in_order_on_mutated_buffer [of ?W "\<lambda>x :: unit. []"]
  obtain data1 data2 data3 edge where
    p: "near_white_suppression ?W = Some data1" "low_alpha_snapping data1 = Some data2"
      "edge_pixels data2 = Some edge" "edge_cleanup data2 = Some data3"
      "refine_array ?W = Some data3"
    and q: "\<forall>i<length ?W. \<forall>j<length (?W ! i).
        is_white (?W ! i ! j) \<or> chan3 (data1 ! i ! j) < 50 \<longrightarrow>
          chan3 (data2 ! i ! j) = 0 \<and> \<not> edge ! i ! j \<and> data3 ! i ! j = data2 ! i ! j"
    by (elim exE conjE) (rule that)
  have w: "is_white (?W ! 0 ! 0)" by (simp add: is_white_def)
  have "data1 = [[(255, 255, 255, 0), (7, 8, 9, 49)]]"
    using p(1) by (simp add: near_white_suppression_map white_pixel_def is_white_def)
  then have l: "chan3 (data1 ! 0 ! 1) < 50" by simp
  have a: "chan3 (data2 ! 0 ! 0) = 0 \<and> \<not> edge ! 0 ! 0 \<and> data3 ! 0 ! 0 = data2 ! 0 ! 0"
    using q [rule_format, of 0 0] w by simp
  have b: "chan3 (data2 ! 0 ! 1) = 0 \<and> \<not> edge ! 0 ! 1 \<and> data3 ! 0 ! 1 = data2 ! 0 ! 1"
    using q [rule_format, of 0 1] l by simp
  show ?thesis
    apply (rule exI [of _ data1], rule exI [of _ data2], rule exI [of _ data3],
        rule exI [of _ edge])
    by (simp only: p w l a b simp_thms)
qed

text \<open>
  C5. Refining twice is refining once: the refiner returns a buffer, and refining that
  buffer returns it unchanged.
\<close>

theorem ensure_transparency_idempotent:
  "\<exists>out. refine_array data = Some out \<and> refine_array out = Some out \<and>
     ensure_transparency convert (RGBA data) = Some (RGBA out) \<and>
     ensure_transparency convert (RGBA out) = Some (RGBA out)"
proof -
  have "map (map refine_pixel) (map (map refine_pixel) data) = map (map refine_pixel) data"
    by (simp add: comp_def refine_pixel_idem)
  then show ?thesis
    by (simp add: refine_array_map ensure_transparency_RGBA)
qed

text \<open>
  C6. On every RGBA image the refiner returns an RGBA image of the same shape: no array
  operation in it fails. The same holds of an image of another mode, once converted.
\<close>

theorem ensure_transparency_total:
  "(\<exists>out. ensure_transparency convert (RGBA data) = Some (RGBA out) \<and> shape out = shape data) \<and>
   (\<exists>out. ensure_transparency convert (Other_mode x) = Some (RGBA out) \<and>
      shape out = shape (convert x))"
proof (intro conjI exI)
  show "ensure_transparency convert (RGBA data) = Some (RGBA (map (map refine_pixel) data))"
    by (rule ensure_transparency_RGBA)
  show "shape (map (map refine_pixel) data) = shape data"
    by (rule shape_map_map)
  show "ensure_transparency convert (Other_mode x) =
      Some (RGBA (map (map refine_pixel) (convert x)))"
    by (rule ensure_transparency_Other)
  show "shape (map (map refine_pixel) (convert x)) = shape (convert x)"
    by (rule shape_map_map)
qed

text \<open>
  C9. No pixel of the refined image has an Alpha strictly between 0 and 50: every Alpha
  of the output is 0 or at least 50.
\<close>

theorem refined_alpha_zero_or_at_least_50:
  "\<exists>out. ensure_transparency convert (RGBA data) = Some (RGBA out) \<and> shape out = shape data \<and>
     (\<forall>i<length out. \<forall>j<length (out ! i).
        chan3 (out ! i ! j) = 0 \<or> 50 \<le> chan3 (out ! i ! j))"
proof -
  let ?out = "map (map refine_pixel) data"
  have "chan3 (?out ! i ! j) = 0 \<or> 50 \<le> chan3 (?out ! i ! j)"
    if "i < length ?out" and "j < length (?out ! i)" for i j
  proof -
    from that have "i < length data" and "j < length (data ! i)" by simp_all
    then have "?out ! i ! j = refine_pixel (data ! i ! j)" by (rule nth_map_map)
    then show ?thesis using refine_pixel_alpha [of "data ! i ! j"] by simp
  qed
  then have all:
    "\<forall>i<length ?out. \<forall>j<length (?out ! i). chan3 (?out ! i ! j) = 0 \<or> 50 \<le> chan3 (?out ! i ! j)"
    by blast
  show ?thesis
  proof (intro exI conjI)
    show "ensure_transparency convert (RGBA data) = Some (RGBA ?out)"
      by (rule ensure_transparency_RGBA)
    show "shape ?out = shape data" by (rule shape_map_map)
    show "\<forall>i<length ?out. \<forall>j<length (?out ! i).
        chan3 (?out ! i ! j) = 0 \<or> 50 \<le> chan3 (?out ! i ! j)"
      by (rule all)
  qed
qed

theorem refined_alpha_zero_or_at_least_50_witness:
  "\<exists>out. ensure_transparency (\<lambda>x :: unit. [])
       (RGBA [[(250, 250, 250, 255), (10, 10, 10, 255)], [(0, 0, 0, 30), (210, 210, 200, 120)]])
       = Some (RGBA out) \<and>
     (1::nat) < length out \<and> (1::nat) < length (out ! 1) \<and>
     chan3 (out ! 0 ! 0) = 0 \<and> 50 \<le> chan3 (out ! 0 ! 1) \<and>
     chan3 (out ! 1 ! 0) = 0 \<and> 50 \<le> chan3 (out ! 1 ! 1)"
proof -
  let ?W = "[[(250, 250, 250, 255), (10, 10, 10, 255)], [(0, 0, 0, 30), (210, 210, 200, 120)]] :: ndarray"
  from refined_alpha_zero_or_at_least_50 [of "\<lambda>x :: unit. []" ?W]
  obtain out where e: "ensure_transparency (\<lambda>x :: unit. []) (RGBA ?W) = Some (RGBA out)"
    and s: "shape out = shape ?W"
    and a: "\<forall>i<length out. \<forall>j<length (out ! i). chan3 (out ! i ! j) = 0 \<or> 50 \<le> chan3 (out ! i ! j)"
    by (elim exE conjE) (rule that)
  have o: "out = [[(255, 255, 255, 0), (10, 10, 10, 255)], [(0, 0, 0, 0), (210, 210, 200, 120)]]"
    using e by (simp add: ensure_transparency_RGBA refine_pixel_cases)
  have l: "(1::nat) < length out" "(1::nat) < length (out ! 1)"
    by (simp_all add: o)
  have c: "chan3 (out ! 0 ! 0) = 0" "50 \<le> chan3 (out ! 0 ! 1)"
    "chan3 (out ! 1 ! 0) = 0" "50 \<le> chan3 (out ! 1 ! 1)"
    using a [rule_format, of 0 0] a [rule_format, of 0 1] a [rule_format, of 1 0]
      a [rule_format, of 1 1]
    by (simp_all add: o)
  show ?thesis
    by (rule exI [of _ out]) (simp only: e l c simp_thms)
qed

text \<open>
  C10. Every pixel of the refined image is (255, 255, 255, 0), or the input pixel, or the
  input pixel with Alpha 0. So its Alpha is at most the input's, and its Red, Green and
  Blue are the input's or (255, 255, 255).
\<close>

theorem refined_pixel_frame:
  "\<exists>out. ensure_transparency convert (RGBA data) = Some (RGBA out) \<and> shape out = shape data \<and>
     (\<forall>i<length data. \<forall>j<length (data ! i).
        (out ! i ! j = (255, 255, 255, 0) \<or> out ! i ! j = data ! i ! j \<or>
         out ! i ! j = set_chan3 0 (data ! i ! j)) \<and>
        chan3 (out ! i ! j) \<le> chan3 (data ! i ! j) \<and>
        ((chan0 (out ! i ! j), chan1 (out ! i ! j), chan2 (out ! i ! j)) =
           (chan0 (data ! i ! j), chan1 (data ! i ! j), chan2 (data ! i ! j)) \<or>
         (chan0 (out ! i ! j), chan1 (out ! i ! j), chan2 (out ! i ! j)) = (255, 255, 255)))"
proof -
  let ?out = "map (map refine_pixel) data"
  have "(?out ! i ! j = (255, 255, 255, 0) \<or> ?out ! i ! j = data ! i ! j \<or>
         ?out ! i ! j = set_chan3 0 (data ! i ! j)) \<and>
        chan3 (?out ! i ! j) \<le> chan3 (data ! i ! j) \<and>
        ((chan0 (?out ! i ! j), chan1 (?out ! i ! j), chan2 (?out ! i ! j)) =
           (chan0 (data ! i ! j), chan1 (data ! i ! j), chan2 (data ! i ! j)) \<or>
         (chan0 (?out ! i ! j), chan1 (?out ! i ! j), chan2 (?out ! i ! j)) = (255, 255, 255))"
    if "i < length data" and "j < length (data ! i)" for i j
  proof -
    from that have n: "?out ! i ! j = refine_pixel (data ! i ! j)" by (rule nth_map_map)
    show ?thesis
      unfolding n
      using refine_pixel_frame [of "data ! i ! j"] refine_pixel_alpha_le [of "data ! i ! j"]
        refine_pixel_rgb [of "data ! i ! j"]
      by blast
  qed
  then have all: "\<forall>i<length data. \<forall>j<length (data ! i).
        (?out ! i ! j = (255, 255, 255, 0) \<or> ?out ! i ! j = data ! i ! j \<or>
         ?out ! i ! j = set_chan3 0 (data ! i ! j)) \<and>
        chan3 (?out ! i ! j) \<le> chan3 (data ! i ! j) \<and>
        ((chan0 (?out ! i ! j), chan1 (?out ! i ! j), chan2 (?out ! i ! j)) =
           (chan0 (data ! i ! j), chan1 (data ! i ! j), chan2 (data ! i ! j)) \<or>
         (chan0 (?out ! i ! j), chan1 (?out ! i ! j), chan2 (?out ! i ! j)) = (255, 255, 255))"
    by (intro allI impI)
  show ?thesis
  proof (intro exI conjI)
    show "ensure_transparency convert (RGBA data) = Some (RGBA ?out)"
      by (rule ensure_transparency_RGBA)
    show "shape ?out = shape data" by (rule shape_map_map)
    show "\<forall>i<length data. \<forall>j<length (data ! i).
        (?out ! i ! j = (255, 255, 255, 0) \<or> ?out ! i ! j = data ! i ! j \<or>
         ?out ! i ! j = set_chan3 0 (data ! i ! j)) \<and>
        chan3 (?out ! i ! j) \<le> chan3 (data ! i ! j) \<and>
        ((chan0 (?out ! i ! j), chan1 (?out ! i ! j), chan2 (?out ! i ! j)) =
           (chan0 (data ! i ! j), chan1 (data ! i ! j), chan2 (data ! i ! j)) \<or>
         (chan0 (?out ! i ! j), chan1 (?out ! i ! j), chan2 (?out ! i ! j)) = (255, 255, 255))"
      by (rule all)
  qed
qed

theorem refined_pixel_frame_witness:
  "\<exists>out. ensure_transparency (\<lambda>x :: unit. [])
       (RGBA [[(250, 250, 250, 255), (10, 10, 10, 255)], [(0, 0, 0, 30), (210, 210, 200, 120)]])
       = Some (RGBA out) \<and>
     out ! 0 ! 0 = (255, 255, 255, 0) \<and> out ! 0 ! 1 = (10, 10, 10, 255) \<and>
     out ! 1 ! 0 = set_chan3 0 (0, 0, 0, 30) \<and> out ! 1 ! 1 = (210, 210, 200, 120) \<and>
     chan3 (out ! 1 ! 0) \<le> 30"
proof -
  let ?W = "[[(250, 250, 250, 255), (10, 10, 10, 255)], [(0, 0, 0, 30), (210, 210, 200, 120)]] :: ndarray"
  from refined_pixel_frame [of "\<lambda>x :: unit. []" ?W]
  obtain out where e: "ensure_transparency (\<lambda>x :: unit. []) (RGBA ?W) = Some (RGBA out)"
    and a: "\<forall>i<length ?W. \<forall>j<length (?W ! i).
        (out ! i ! j = (255, 255, 255, 0) \<or> out ! i ! j = ?W ! i ! j \<or>
         out ! i ! j = set_chan3 0 (?W ! i ! j)) \<and>
        chan3 (out ! i ! j) \<le> chan3 (?W ! i ! j) \<and>
        ((chan0 (out ! i ! j), chan1 (out ! i ! j), chan2 (out ! i ! j)) =
           (chan0 (?W ! i ! j), chan1 (?W ! i ! j), chan2 (?W ! i ! j)) \<or>
         (chan0 (out ! i ! j), chan1 (out ! i ! j), chan2 (out ! i ! j)) = (255, 255, 255))"
    by (elim exE conjE) (rule that)
  have "chan3 (out ! 1 ! 0) \<le> chan3 (?W ! 1 ! 0)"
    by (rule a [rule_format, of 1 0, THEN conjunct2, THEN conjunct1]) simp_all
  then have le: "chan3 (out ! 1 ! 0) \<le> 30" by simp
  have o: "out = [[(255, 255, 255, 0), (10, 10, 10, 255)], [(0, 0, 0, 0), (210, 210, 200, 120)]]"
    using e by (simp add: ensure_transparency_RGBA refine_pixel_cases)
  have "out ! 0 ! 0 = (255, 255, 255, 0)" "out ! 0 ! 1 = (10, 10, 10, 255)"
    "out ! 1 ! 0 = set_chan3 0 (0, 0, 0, 30)" "out ! 1 ! 1 = (210, 210, 200, 120)"
    by (simp_all add: o)
  then show ?thesis
    using e le by (intro exI [of _ out]) simp
qed

section \<open>The interactive options: properties\<close>

lemma lower_char_eq_iff:
  assumes "of_char l = (of_char u :: nat) + 32"
    and "65 \<le> (of_char u :: nat)" and "(of_char u :: nat) \<le> 90"
  shows "lower_char c = l \<longleftrightarrow> c = l \<or> c = u"
proof -
  let ?n = "of_char c :: nat"
  have lt: "?n < 256" by simp
  have l_range: "97 \<le> (of_char l :: nat)" "(of_char l :: nat) \<le> 122"
    using assms by simp_all
  show ?thesis
  proof (cases "(65 \<le> ?n \<and> ?n \<le> 90) \<or> (192 \<le> ?n \<and> ?n \<le> 222 \<and> ?n \<noteq> 215)")
    case True
    then have lc: "lower_char c = char_of (?n + 32)"
      unfolding lower_char_def Let_def by (simp only: if_True)
    have ne: "c \<noteq> l" using True l_range by auto
    have "lower_char c = l \<longleftrightarrow> (of_char (lower_char c) :: nat) = of_char l" by simp
    also have "\<dots> \<longleftrightarrow> (?n + 32) mod 256 = of_char u + 32" by (simp add: lc assms(1))
    also have "\<dots> \<longleftrightarrow> ?n = of_char u" using True lt by auto
    also have "\<dots> \<longleftrightarrow> c = u" by simp
    finally show ?thesis using ne by simp
  next
    case False
    then have lc: "lower_char c = c"
      unfolding lower_char_def Let_def by (simp only: if_False)
    have "c \<noteq> u" using False assms by auto
    then show ?thesis by (simp add: lc)
  qed
qed

lemma strip_eq_single:
  "strip s = [c] \<longleftrightarrow>
     \<not> isspace c \<and>
     (\<exists>pre post. s = pre @ c # post \<and> (\<forall>x\<in>set pre. isspace x) \<and> (\<forall>x\<in>set post. isspace x))"
proof
  assume h: "strip s = [c]"
  let ?t = "dropWhile isspace s"
  let ?post = "rev (takeWhile isspace (rev ?t))"
  have "rev (dropWhile isspace (rev ?t)) = [c]" using h by (simp add: strip_def)
  then have "rev (rev (dropWhile isspace (rev ?t))) = rev [c]" by (rule arg_cong)
  then have d: "dropWhile isspace (rev ?t) = [c]" by simp
  then have nsp: "\<not> isspace c" by (metis hd_dropWhile list.sel(1) not_Cons_self2)
  have "rev ?t = takeWhile isspace (rev ?t) @ [c]" using d by (metis takeWhile_dropWhile_id)
  then have "rev (rev ?t) = rev (takeWhile isspace (rev ?t) @ [c])" by simp
  then have t: "?t = c # ?post" by simp
  have "s = takeWhile isspace s @ ?t" by simp
  then have "s = takeWhile isspace s @ c # ?post" using t by simp
  moreover have "\<forall>x\<in>set (takeWhile isspace s). isspace x" by (meson set_takeWhileD)
  moreover have "\<forall>x\<in>set ?post. isspace x" by (metis set_rev set_takeWhileD)
  ultimately show "\<not> isspace c \<and>
     (\<exists>pre post. s = pre @ c # post \<and> (\<forall>x\<in>set pre. isspace x) \<and> (\<forall>x\<in>set post. isspace x))"
    using nsp by blast
next
  assume "\<not> isspace c \<and>
     (\<exists>pre post. s = pre @ c # post \<and> (\<forall>x\<in>set pre. isspace x) \<and> (\<forall>x\<in>set post. isspace x))"
  then obtain pre post where nsp: "\<not> isspace c" and s: "s = pre @ c # post"
    and pre: "\<forall>x\<in>set pre. isspace x" and post: "\<forall>x\<in>set post. isspace x" by blast
  have "dropWhile isspace s = c # post" using s pre nsp by (simp add: dropWhile_append3)
  moreover have "dropWhile isspace (rev post @ [c]) = [c]"
    using post nsp by (simp add: dropWhile_append)
  ultimately show "strip s = [c]" by (simp add: strip_def)
qed

lemma lower_strip_letter:
  assumes "of_char l = (of_char u :: nat) + 32"
    and "65 \<le> (of_char u :: nat)" and "(of_char u :: nat) \<le> 90"
  shows "lower (strip s) = [l] \<longleftrightarrow>
     (\<exists>pre post c. s = pre @ c # post \<and> (c = l \<or> c = u) \<and>
        (\<forall>x\<in>set pre. isspace x) \<and> (\<forall>x\<in>set post. isspace x))"
proof -
  have sp: "\<not> isspace c" if "c = l \<or> c = u" for c
    using that assms by (auto simp: isspace_def)
  have "lower (strip s) = [l] \<longleftrightarrow> (\<exists>c. strip s = [c] \<and> lower_char c = l)"
    by (auto simp: lower_def map_eq_Cons_conv)
  also have "\<dots> \<longleftrightarrow> (\<exists>c. strip s = [c] \<and> (c = l \<or> c = u))"
    by (simp only: lower_char_eq_iff [OF assms])
  also have "\<dots> \<longleftrightarrow> (\<exists>pre post c. s = pre @ c # post \<and> (c = l \<or> c = u) \<and>
        (\<forall>x\<in>set pre. isspace x) \<and> (\<forall>x\<in>set post. isspace x))"
    using sp by (simp only: strip_eq_single) blast
  finally show ?thesis .
qed

lemma select_options_two_answers:
  "select_options (answer1 # answer2 # rest) =
     Inr ((lower (strip answer1) \<noteq> ''n'', lower (strip answer2) = ''y''), rest)"
  by (simp add: select_options_def input_def)



text \<open>
  C7, as stated: alpha matting is off exactly when the answer is the literal n, and
  mask-only is on exactly when the answer is the literal y. The code strips and
  lower-cases the answer first, so the answer N turns alpha matting off and the answer
  y between two spaces turns mask-only on.
\<close>

theorem select_options_literal_counterexample:
  "select_options [''N'', '' y ''] = Inr ((False, True), []) \<and> ''N'' \<noteq> ''n'' \<and> '' y '' \<noteq> ''y''"
  by code_simp

text \<open>
  C7, amended: both prompts are answered by the next two lines of the input; alpha
  matting is off exactly when the first answer, stripped of leading and trailing
  whitespace and lower-cased, is n, that is when it is a single n or N with nothing but
  whitespace around it, and on for every other answer; mask-only is on exactly when the
  second answer, stripped and lower-cased, is y, that is a single y or Y with nothing
  but whitespace around it, and off for every other answer.
\<close>

theorem select_options_after_strip_lower:
  "\<exists>alpha_matting only_mask.
     select_options (answer1 # answer2 # rest) = Inr ((alpha_matting, only_mask), rest) \<and>
     (alpha_matting \<longleftrightarrow> lower (strip answer1) \<noteq> ''n'') \<and>
     (only_mask \<longleftrightarrow> lower (strip answer2) = ''y'') \<and>
     (\<not> alpha_matting \<longleftrightarrow>
        (\<exists>pre post c. answer1 = pre @ c # post \<and> (c = CHR ''n'' \<or> c = CHR ''N'') \<and>
           (\<forall>x\<in>set pre. isspace x) \<and> (\<forall>x\<in>set post. isspace x))) \<and>
     (only_mask \<longleftrightarrow>
        (\<exists>pre post c. answer2 = pre @ c # post \<and> (c = CHR ''y'' \<or> c = CHR ''Y'') \<and>
           (\<forall>x\<in>set pre. isspace x) \<and> (\<forall>x\<in>set post. isspace x)))"
proof -
  have n: "lower (strip answer1) = ''n'' \<longleftrightarrow>
        (\<exists>pre post c. answer1 = pre @ c # post \<and> (c = CHR ''n'' \<or> c = CHR ''N'') \<and>
           (\<forall>x\<in>set pre. isspace x) \<and> (\<forall>x\<in>set post. isspace x))"
    by (rule lower_strip_letter) simp_all
  have y: "lower (strip answer2) = ''y'' \<longleftrightarrow>
        (\<exists>pre post c. answer2 = pre @ c # post \<and> (c = CHR ''y'' \<or> c = CHR ''Y'') \<and>
           (\<forall>x\<in>set pre. isspace x) \<and> (\<forall>x\<in>set post. isspace x))"
    by (rule lower_strip_letter) simp_all
  show ?thesis
  proof (intro exI conjI)
    show "select_options (answer1 # answer2 # rest) =
        Inr ((lower (strip answer1) \<noteq> ''n'', lower (strip answer2) = ''y''), rest)"
      by (rule select_options_two_answers)
    show "(lower (strip answer1) \<noteq> ''n'') = (lower (strip answer1) \<noteq> ''n'')" by (rule refl)
    show "(lower (strip answer2) = ''y'') = (lower (strip answer2) = ''y'')" by (rule refl)
    show "(\<not> lower (strip answer1) \<noteq> ''n'') =
        (\<exists>pre post c. answer1 = pre @ c # post \<and> (c = CHR ''n'' \<or> c = CHR ''N'') \<and>
           (\<forall>x\<in>set pre. isspace x) \<and> (\<forall>x\<in>set post. isspace x))"
      using n by simp
    show "(lower (strip answer2) = ''y'') =
        (\<exists>pre post c. answer2 = pre @ c # post \<and> (c = CHR ''y'' \<or> c = CHR ''Y'') \<and>
           (\<forall>x\<in>set pre. isspace x) \<and> (\<forall>x\<in>set post. isspace x))"
      by (rule y)
  qed
qed

theorem select_options_after_strip_lower_witness:
  "\<exists>alpha_matting only_mask.
     select_options ['' N '', ''yes'', ''later''] = Inr ((alpha_matting, only_mask), [''later'']) \<and>
     \<not> alpha_matting \<and> \<not> only_mask"
proof -
  from select_options_after_strip_lower [of "'' N ''" "''yes''" "[''later'']"]
  obtain am om where r: "select_options ['' N '', ''yes'', ''later''] = Inr ((am, om), [''later''])"
    and o: "om \<longleftrightarrow> lower (strip ''yes'') = ''y''"
    and a: "\<not> am \<longleftrightarrow>
        (\<exists>pre post c. '' N '' = pre @ c # post \<and> (c = CHR ''n'' \<or> c = CHR ''N'') \<and>
           (\<forall>x\<in>set pre. isspace x) \<and> (\<forall>x\<in>set post. isspace x))"
    by (elim exE conjE) (rule that)
  have "'' N '' = '' '' @ CHR ''N'' # '' '' \<and> (CHR ''N'' = CHR ''n'' \<or> CHR ''N'' = CHR ''N'') \<and>
      (\<forall>x\<in>set '' ''. isspace x) \<and> (\<forall>x\<in>set '' ''. isspace x)"
    by (simp add: isspace_def)
  then have "\<exists>pre post c. '' N '' = pre @ c # post \<and> (c = CHR ''n'' \<or> c = CHR ''N'') \<and>
           (\<forall>x\<in>set pre. isspace x) \<and> (\<forall>x\<in>set post. isspace x)"
    by (intro exI)
  then have na: "\<not> am" using a by (rule iffD2 [rotated])
  have "lower (strip ''yes'') = ''yes''"
    by (simp add: strip_def lower_def isspace_def lower_char_def)
  then have no: "\<not> om" using o by simp
  show ?thesis
    by (rule exI [of _ am], rule exI [of _ om]) (simp only: r na no simp_thms)
qed

section \<open>The batch driver: properties\<close>














end
